theory Spec2Isabelle
  imports Main "HOL-Library.Word"
begin

section \<open>The chaincode invoke and query tasks of fabric-cli\<close>

text \<open>
  This theory embeds the two task types of the fabric-cli chaincode commands:
  package \<open>invoketask\<close> (the commit-awaiting invoker, with its retry state machine) and
  package \<open>querytask\<close> (the query invoker).

  Both are written against collaborators that live outside the two source files: the
  channel client of the SDK, the task executor, the process-wide configuration with its
  logger, and the \<open>invokeerror\<close> package. What such a collaborator answers is an input of the
  model; what a task asks of it (a call, a log line, the callback) is recorded, in program
  order, in a list of events.
\<close>

subsection \<open>Base types\<close>

text \<open>
  Go's \<open>int\<close> is taken at its 64-bit width and read in two's complement: \<open>+\<close> wraps and
  \<open><\<close> is the signed comparison \<^const>\<open>word_sless\<close>. \<open>time.Duration\<close> is an \<open>int64\<close>.
\<close>

type_synonym goint = "64 word"
type_synonym Duration = "64 word"

text \<open>
  \<open>pb.TxValidationCode\<close> is an \<open>int32\<close> enumeration of the protos/peer package of the
  SDK. The four constants the task switches on carry the values of that enumeration.
\<close>

type_synonym TxValidationCode = "32 word"

definition TxValidationCode_VALID :: TxValidationCode where
  "TxValidationCode_VALID = 0"

definition TxValidationCode_DUPLICATE_TXID :: TxValidationCode where
  "TxValidationCode_DUPLICATE_TXID = 9"

definition TxValidationCode_MVCC_READ_CONFLICT :: TxValidationCode where
  "TxValidationCode_MVCC_READ_CONFLICT = 11"

definition TxValidationCode_PHANTOM_READ_CONFLICT :: TxValidationCode where
  "TxValidationCode_PHANTOM_READ_CONFLICT = 12"

text \<open>
  The collaborators a task holds (executor, channel client, printer, callback) are opaque
  references. They are taken to be non-nil, as are the \<open>args\<close> pointer and the
  transaction id a successful submission returns.
\<close>

type_synonym Executor = nat
type_synonym ChannelClient = nat
type_synonym Printer = nat
type_synonym callback_func = nat

text \<open>\<open>action.ArgStruct\<close>: the function name and its arguments.\<close>

record ArgStruct =
  Func :: string
  Args :: "string list"

subsection \<open>Errors\<close>

text \<open>
  Modelled from the spec: package \<open>invokeerror\<close> is not among the source files. The
  specification gives its taxonomy as three mutually exclusive kinds; \<open>invokeerror.Error\<close>
  is the interface of the errors that carry such a code (\<open>ErrorCode()\<close>).
\<close>

datatype ErrorCode = TransientError | TimeoutOnCommit | PersistentError

text \<open>
  A non-nil Go \<open>error\<close> value is either an error of some other dynamic type
  (\<open>PlainError\<close>, with its text), or an error built by package \<open>invokeerror\<close>
  (\<open>InvokeError\<close>): its code, the format string with its arguments, and the wrapped cause,
  which may be nil. The nil \<open>error\<close> is \<open>None\<close> of \<open>go_error option\<close>. Formatting
  is not carried out: a message is the format string together with its arguments.
\<close>

datatype go_error =
    PlainError string
  | InvokeError ErrorCode string "fmt_arg list" "go_error option"
and fmt_arg =
    ArgString string
  | ArgStrings "string list"
  | ArgInt goint
  | ArgCode TxValidationCode
  | ArgError go_error

text \<open>
  Modelled from the spec: \<open>invokeerror.Errorf(code, format, args...)\<close> and
  \<open>invokeerror.Wrapf(code, cause, format, args...)\<close> (package \<open>invokeerror\<close> is not among
  the source files) build the error classified with \<open>code\<close>.
\<close>

definition invokeerror_Errorf :: "ErrorCode \<Rightarrow> string \<Rightarrow> fmt_arg list \<Rightarrow> go_error" where
  "invokeerror_Errorf code format as = InvokeError code format as None"

definition invokeerror_Wrapf ::
  "ErrorCode \<Rightarrow> go_error option \<Rightarrow> string \<Rightarrow> fmt_arg list \<Rightarrow> go_error" where
  "invokeerror_Wrapf code cause format as = InvokeError code format as cause"

text \<open>
  The type assertion \<open>err.(invokeerror.Error)\<close> on a non-nil error: it yields the error
  with its \<open>ErrorCode()\<close> when the dynamic type implements the interface, and panics
  (\<open>None\<close>) otherwise.
\<close>

fun assert_invokeerror_Error :: "go_error \<Rightarrow> (go_error \<times> ErrorCode) option" where
  "assert_invokeerror_Error (InvokeError code format as cause) =
     Some (InvokeError code format as cause, code)"
| "assert_invokeerror_Error (PlainError msg) = None"

subsection \<open>Requests, responses and the configuration\<close>

record ExecuteTxRequest =
  ChaincodeID :: string
  Fcn :: string
  ReqArgs :: "string list"

text \<open>
  The options of a submission: the response filter \<open>responsefilter.New(verbose, printer)\<close>,
  kept as its two arguments, and the timeout. The notifier channel of
  \<open>ExecuteTxWithOpts\<close> is created afresh by every attempt; what arrives on it is the
  \<open>commitEvent\<close> of the attempt's environment below.
\<close>

record TxOpts =
  TxFilter :: "bool \<times> Printer"
  OptTimeout :: Duration

text \<open>\<open>apitxn.ExecuteTxResponse\<close>, as far as the task reads it.\<close>

record ExecuteTxResponse =
  TxValidationCode :: TxValidationCode
  Error :: "go_error option"

text \<open>The read-only configuration \<open>cliconfig.Config()\<close>: its timeout and chaincode id.\<close>

record Config =
  Timeout :: Duration
  CfgChaincodeID :: string

subsection \<open>Events\<close>

text \<open>
  What a task does to the world outside, in program order: the lines it logs at debug and
  error level, the submission or query it sends, the wait for the commit notification
  (the \<open>select\<close> between the notifier and \<open>time.After\<close>), the delayed resubmission it asks
  the executor for, and the invocation of the callback with its argument.
\<close>

datatype event =
    LogDebugf string "fmt_arg list"
  | LogErrorf string "fmt_arg list"
  | ExecuteTxWithOpts ChannelClient ExecuteTxRequest TxOpts
  | QueryWithOpts ChannelClient ExecuteTxRequest TxOpts
  | SelectCommit Duration
  | SubmitDelayed Executor string Duration
  | Callback callback_func "go_error option"

text \<open>The arguments of the callback invocations among a list of events, in order.\<close>

fun callbacks :: "event list \<Rightarrow> go_error option list" where
  "callbacks [] = []"
| "callbacks (Callback f err # evs) = err # callbacks evs"
| "callbacks (_ # evs) = callbacks evs"

text \<open>The delayed resubmissions requested and the submissions sent among a list of events.\<close>

fun resubmissions :: "event list \<Rightarrow> nat" where
  "resubmissions [] = 0"
| "resubmissions (SubmitDelayed ex i d # evs) = Suc (resubmissions evs)"
| "resubmissions (_ # evs) = resubmissions evs"

fun submissions :: "event list \<Rightarrow> nat" where
  "submissions [] = 0"
| "submissions (ExecuteTxWithOpts c r opts # evs) = Suc (submissions evs)"
| "submissions (QueryWithOpts c r opts # evs) = Suc (submissions evs)"
| "submissions (_ # evs) = submissions evs"

fun commit_waits :: "event list \<Rightarrow> nat" where
  "commit_waits [] = 0"
| "commit_waits (SelectCommit d # evs) = Suc (commit_waits evs)"
| "commit_waits (_ # evs) = commit_waits evs"

fun error_logs :: "event list \<Rightarrow> (string \<times> fmt_arg list) list" where
  "error_logs [] = []"
| "error_logs (LogErrorf format as # evs) = (format, as) # error_logs evs"
| "error_logs (_ # evs) = error_logs evs"

subsection \<open>The invoke task\<close>

record Task =
  executor :: Executor
  channelClient :: ChannelClient
  id' :: string
  ccID :: string
  args :: ArgStruct
  maxAttempts :: goint
  resubmitDelay :: Duration
  attempt :: goint
  lastErr :: "go_error option"
  callback :: callback_func
  verbose :: bool
  printer :: Printer
  txID :: string

definition New ::
  "string \<Rightarrow> ChannelClient \<Rightarrow> string \<Rightarrow> ArgStruct \<Rightarrow> Executor \<Rightarrow> goint \<Rightarrow> Duration \<Rightarrow> bool \<Rightarrow>
   Printer \<Rightarrow> callback_func \<Rightarrow> Task" where
  "New i client cc as ex maxAtt delay verb p cb =
     \<lparr> executor = ex, channelClient = client, id' = i, ccID = cc, args = as,
       maxAttempts = maxAtt, resubmitDelay = delay, attempt = 1, lastErr = None,
       callback = cb, verbose = verb, printer = p, txID = [] \<rparr>"

definition Attempts :: "Task \<Rightarrow> goint" where
  "Attempts t = attempt t"

definition LastError :: "Task \<Rightarrow> go_error option" where
  "LastError t = lastErr t"

text \<open>
  What the world answers during one attempt: the result of \<open>ExecuteTxWithOpts\<close> (an error,
  or the id of the transaction), which branch of the \<open>select\<close> fires (\<open>Some s\<close>: the
  notification \<open>s\<close> arrives before the timer; \<open>None\<close>: the timer fires first), and the result
  of \<open>SubmitDelayed\<close>, should the attempt call it.
\<close>

record attempt_env =
  execResult :: "go_error + string"
  commitEvent :: "ExecuteTxResponse option"
  submitDelayedResult :: "go_error option"

text \<open>
  \<open>doInvoke\<close> returns its error together with the task as it leaves it and the events of
  the attempt. The request carries the arguments as given; \<open>utils.AsBytes\<close> turns them into
  bytes outside the source at hand.
\<close>

definition doInvoke :: "Config \<Rightarrow> attempt_env \<Rightarrow> Task \<Rightarrow> go_error option \<times> Task \<times> event list" where
  "doInvoke cfg w t =
     (let ev1 =
        [ LogDebugf ''(%s) - Invoking chaincode: %s, function: %s, args: %+v. Attempt #%d...\<newline>''
            [ArgString (id' t), ArgString (ccID t), ArgString (Func (args t)),
             ArgStrings (Args (args t)), ArgInt (attempt t)],
          ExecuteTxWithOpts (channelClient t)
            \<lparr> ChaincodeID = ccID t, Fcn = Func (args t), ReqArgs = Args (args t) \<rparr>
            \<lparr> TxFilter = (verbose t, printer t), OptTimeout = Timeout cfg \<rparr> ]
      in case execResult w of
        Inl err \<Rightarrow>
          (Some (invokeerror_Errorf TransientError
                   ''SendTransactionProposal return error: %v'' [ArgError err]), t, ev1)
      | Inr txnID \<Rightarrow>
          (let t1 = t\<lparr> txID := txnID \<rparr>;
               ev2 = ev1 @
                 [ LogDebugf ''(%s) - Committing transaction - TxID [%s] ...\<newline>''
                     [ArgString (id' t1), ArgString txnID],
                   SelectCommit (Timeout cfg) ]
           in case commitEvent w of
             Some s \<Rightarrow>
               if TxValidationCode s = TxValidationCode_VALID then
                 (None, t1, ev2 @
                    [ LogDebugf ''(%s) - Successfully committed transaction [%s] ...\<newline>''
                        [ArgString (id' t1), ArgString txnID] ])
               else if TxValidationCode s = TxValidationCode_DUPLICATE_TXID
                     \<or> TxValidationCode s = TxValidationCode_MVCC_READ_CONFLICT
                     \<or> TxValidationCode s = TxValidationCode_PHANTOM_READ_CONFLICT then
                 (Some (invokeerror_Wrapf TransientError (Error s)
                          ''invoke Error received from eventhub for TxID [%s]. Code: %s''
                          [ArgString txnID, ArgCode (TxValidationCode s)]), t1, ev2 @
                    [ LogDebugf ''(%s) - Transaction commit failed for [%s] with code [%s]. This is most likely a transient error.\<newline>''
                        [ArgString (id' t1), ArgString txnID, ArgCode (TxValidationCode s)] ])
               else
                 (Some (invokeerror_Wrapf PersistentError (Error s)
                          ''invoke Error received from eventhub for TxID [%s]. Code: %s''
                          [ArgString txnID, ArgCode (TxValidationCode s)]), t1, ev2 @
                    [ LogDebugf ''(%s) - Transaction commit failed for [%s] with code [%s].\<newline>''
                        [ArgString (id' t1), ArgString txnID, ArgCode (TxValidationCode s)] ])
           | None \<Rightarrow>
               (Some (invokeerror_Errorf TimeoutOnCommit
                        ''timed out waiting to receive block event for TxID [%s]''
                        [ArgString txnID]), t1, ev2)))"

text \<open>
  How a call of \<open>Invoke\<close> ends: with a panic; by returning after the executor has accepted
  the delayed resubmission of the task (\<open>SubmitDelayed\<close> returned nil); or by returning with
  nothing scheduled.
\<close>

datatype exit = Panicked | Resubmitted | Returned

text \<open>
  \<open>Invoke\<close>. The test \<open>invokeErr != nil\<close> of the source follows a type assertion that has
  succeeded on a non-nil error, so it holds wherever it is reached; the \<open>switch\<close> has the
  cases \<open>TransientError\<close> and \<open>TimeoutOnCommit\<close> and no default.
\<close>

definition Invoke :: "Config \<Rightarrow> attempt_env \<Rightarrow> Task \<Rightarrow> Task \<times> event list \<times> exit" where
  "Invoke cfg w t0 =
     (case doInvoke cfg w t0 of
        (Some err, t1, ev) \<Rightarrow>
          (let t = t1\<lparr> lastErr := Some err \<rparr> in
           case assert_invokeerror_Error err of
             None \<Rightarrow> (t, ev, Panicked)
           | Some (invokeErr, code) \<Rightarrow>
               if code = TransientError then
                 if word_sless (attempt t) (maxAttempts t) then
                   (let ev3 = ev @
                          [ LogDebugf ''(%s) - Error invoking chaincode: %s. Resubmitting ...\<newline>''
                              [ArgString (id' t), ArgError err] ];
                        t2 = t\<lparr> attempt := attempt t + 1 \<rparr>;
                        ev4 = ev3 @ [ SubmitDelayed (executor t2) (id' t2) (resubmitDelay t2) ]
                    in case submitDelayedResult w of
                         Some err2 \<Rightarrow>
                           (t2, ev4 @ [ LogErrorf ''error submitting task: %s'' [ArgError err2] ],
                            Returned)
                       | None \<Rightarrow> (t2, ev4, Resubmitted))
                 else
                   (t, ev @
                      [ LogDebugf ''(%s) - Error invoking chaincode: %s. Giving up after %d attempts.\<newline>''
                          [ArgString (id' t), ArgError err, ArgInt (attempt t)],
                        Callback (callback t) (Some err) ], Returned)
               else if code = TimeoutOnCommit then
                 (t, ev @
                    [ LogDebugf ''(%s) - Timeout committing Tx %s\<newline>''
                        [ArgString (id' t), ArgString (txID t)],
                      Callback (callback t) (Some err) ], Returned)
               else
                 (t, ev @ [ Callback (callback t) (Some err) ], Returned))
      | (None, t1, ev) \<Rightarrow>
          (t1, ev @
             [ LogDebugf ''(%s) - Successfully invoked chaincode\<newline>'' [ArgString (id' t1)],
               Callback (callback t1) None ], Returned))"

text \<open>
  The error an attempt returns, and whether the attempt fails with an error that carries
  a given code.
\<close>

definition attempt_error :: "Config \<Rightarrow> attempt_env \<Rightarrow> Task \<Rightarrow> go_error option" where
  "attempt_error cfg w t = fst (doInvoke cfg w t)"

definition fails_with :: "Config \<Rightarrow> attempt_env \<Rightarrow> Task \<Rightarrow> ErrorCode \<Rightarrow> bool" where
  "fails_with cfg w t code =
     (case attempt_error cfg w t of
        None \<Rightarrow> False
      | Some err \<Rightarrow>
          (case assert_invokeerror_Error err of
             None \<Rightarrow> False
           | Some (invokeErr, c) \<Rightarrow> c = code))"

subsection \<open>The query task\<close>

record querytask_Task =
  q_channelClient :: ChannelClient
  q_id :: string
  q_args :: ArgStruct
  q_callback :: callback_func
  q_printer :: Printer
  q_verbose :: bool

definition querytask_New ::
  "string \<Rightarrow> ChannelClient \<Rightarrow> ArgStruct \<Rightarrow> Printer \<Rightarrow> bool \<Rightarrow> callback_func \<Rightarrow> querytask_Task" where
  "querytask_New i client as p verb cb =
     \<lparr> q_channelClient = client, q_id = i, q_args = as, q_callback = cb,
       q_printer = p, q_verbose = verb \<rparr>"

text \<open>
  \<open>Invoke\<close> of the query task. \<open>queryResult\<close> is the error \<open>QueryWithOpts\<close> returns, nil
  when the query went through; the payload it returns is dropped by the source.
\<close>

definition querytask_Invoke ::
  "Config \<Rightarrow> go_error option \<Rightarrow> querytask_Task \<Rightarrow> querytask_Task \<times> event list" where
  "querytask_Invoke cfg queryResult t =
     (let ev =
        [ QueryWithOpts (q_channelClient t)
            \<lparr> ChaincodeID = CfgChaincodeID cfg, Fcn = Func (q_args t), ReqArgs = Args (q_args t) \<rparr>
            \<lparr> TxFilter = (q_verbose t, q_printer t), OptTimeout = Timeout cfg \<rparr> ]
      in case queryResult of
           Some err \<Rightarrow>
             (t, ev @
                [ LogDebugf ''(%s) - Error querying chaincode: %s\<newline>''
                    [ArgString (q_id t), ArgError err],
                  Callback (q_callback t) (Some err) ])
         | None \<Rightarrow>
             (t, ev @
                [ LogDebugf ''(%s) - Chaincode query was successful\<newline>'' [ArgString (q_id t)],
                  Callback (q_callback t) None ]))"

subsection \<open>The retry sequence\<close>

text \<open>
  Modelled from the spec: package \<open>executor\<close> is not among the source files. By the
  specification, \<open>SubmitDelayed(task, delay)\<close> asks for the same task to be executed
  again after the delay, its error says that the request itself failed, and a resubmission
  that was scheduled fires. So a run of the state machine is: \<open>Invoke\<close>; when the executor
  has accepted the resubmission, \<open>Invoke\<close> again on the task as the attempt left it, in the
  environment of the next attempt; otherwise the run is over. \<open>env k\<close> is the environment
  of the \<open>k\<close>-th call, counted from 0. The run returns the task at its end, the events of
  all attempts and the way the last call ended.
\<close>

function run :: "Config \<Rightarrow> (nat \<Rightarrow> attempt_env) \<Rightarrow> nat \<Rightarrow> Task \<Rightarrow> Task \<times> event list \<times> exit" where
  "run cfg env k t =
     (case Invoke cfg (env k) t of
        (t', ev, Resubmitted) \<Rightarrow>
          (case run cfg env (Suc k) t' of (t'', ev', x) \<Rightarrow> (t'', ev @ ev', x))
      | (t', ev, x) \<Rightarrow> (t', ev, x))"
  by pat_completeness auto
termination
proof (relation "measure (\<lambda>(cfg, env, k, t). nat (sint (maxAttempts t) - sint (attempt t)))")
  show "wf (measure (\<lambda>(cfg, env, k, t). nat (sint (maxAttempts t) - sint (attempt t))))"
    by simp
next
  fix cfg :: Config and env :: "nat \<Rightarrow> attempt_env" and k :: nat
    and t t' :: Task and r :: "event list \<times> exit" and ev :: "event list" and x :: exit
  assume inv: "(t', r) = Invoke cfg (env k) t" and r: "(ev, x) = r" and x: "x = Resubmitted"
  from inv r x have res: "Invoke cfg (env k) t = (t', ev, Resubmitted)"
    by simp
  then have less: "word_sless (attempt t) (maxAttempts t)"
      and att: "attempt t' = attempt t + 1" and mx: "maxAttempts t' = maxAttempts t"
    by (auto simp: Invoke_def doInvoke_def Let_def
        split: prod.splits option.splits if_splits sum.splits)
  from less have lt: "sint (attempt t) < sint (maxAttempts t)"
    by (simp add: word_sless_alt)
  moreover have "sint (maxAttempts t) < 2 ^ 63"
    using sint_lt [of "maxAttempts t"] by simp
  moreover have "- (2 ^ 63) \<le> sint (attempt t)"
    using sint_ge [of "attempt t"] by simp
  ultimately have "signed_take_bit 63 (sint (attempt t) + 1) = sint (attempt t) + 1"
    by (intro signed_take_bit_int_eq_self) auto
  then have "sint (attempt t + 1) = sint (attempt t) + 1"
    by (simp add: sint_word_ariths)
  with lt att mx
  show "((cfg, env, Suc k, t'), (cfg, env, k, t))
          \<in> measure (\<lambda>(cfg, env, k, t). nat (sint (maxAttempts t) - sint (attempt t)))"
    by simp
qed

subsection \<open>Environments of a run\<close>

text \<open>
  The environments of a run given as a finite list, one per call of \<open>Invoke\<close>, and the
  environment of every call after those.
\<close>

definition env_of_list :: "attempt_env list \<Rightarrow> attempt_env \<Rightarrow> nat \<Rightarrow> attempt_env" where
  "env_of_list ws w k = (if k < length ws then ws ! k else w)"

subsection \<open>What a run leaves behind\<close>

text \<open>
  A predicate on the events \<open>ev\<close> of a run that began on task \<open>t\<close> with the environment
  \<open>env k\<close>. The run made \<open>n\<close> attempts, as many as it sent submissions, the last one in the
  environment \<open>env (k + n - 1)\<close> and with the attempt counter \<open>n - 1\<close> above where it began.
  If that last attempt failed transiently below the maximum of attempts and its scheduling
  call returned an error, the callback was not invoked and the error was logged; otherwise
  the callback was invoked once, with the result of the last attempt, and no error was
  logged.
\<close>

definition run_outcome ::
  "Config \<Rightarrow> (nat \<Rightarrow> attempt_env) \<Rightarrow> nat \<Rightarrow> Task \<Rightarrow> event list \<Rightarrow> bool" where
  "run_outcome cfg env k t ev =
     (let n = submissions ev; w = env (k + n - 1) in
      1 \<le> n \<and>
      (case submitDelayedResult w of
         Some e \<Rightarrow>
           if fails_with cfg w t TransientError
              \<and> sint (attempt t) + int n - 1 < sint (maxAttempts t)
           then callbacks ev = []
              \<and> error_logs ev = [(''error submitting task: %s'', [ArgError e])]
           else callbacks ev = [attempt_error cfg w t] \<and> error_logs ev = []
       | None \<Rightarrow> callbacks ev = [attempt_error cfg w t] \<and> error_logs ev = []))"

subsection \<open>Example inputs\<close>

text \<open>
  A configuration, a task built by \<open>New\<close> with a given maximum of attempts, and
  environments of one attempt: a commit notification with a given validation code, a
  commit wait that times out, and a submission that fails.
\<close>

definition example_config :: Config where
  "example_config = \<lparr> Timeout = 5000000000, CfgChaincodeID = ''example_cc'' \<rparr>"

definition example_args :: ArgStruct where
  "example_args = \<lparr> Func = ''invoke'', Args = [''move'', ''a'', ''b'', ''1''] \<rparr>"

definition example_task :: "goint \<Rightarrow> Task" where
  "example_task n = New ''task1'' 1 ''example_cc'' example_args 2 n 10000000 False 3 4"

definition notified :: "TxValidationCode \<Rightarrow> attempt_env" where
  "notified code =
     \<lparr> execResult = Inr ''tx1'',
       commitEvent = Some \<lparr> TxValidationCode = code, Error = None \<rparr>,
       submitDelayedResult = None \<rparr>"

definition timed_out :: attempt_env where
  "timed_out = \<lparr> execResult = Inr ''tx1'', commitEvent = None, submitDelayedResult = None \<rparr>"

definition not_submitted :: "go_error option \<Rightarrow> attempt_env" where
  "not_submitted sd =
     \<lparr> execResult = Inl (PlainError ''connection refused''), commitEvent = None,
       submitDelayedResult = sd \<rparr>"

section \<open>Properties\<close>

subsection \<open>Events of a list\<close>

lemma callbacks_append [simp]: "callbacks (xs @ ys) = callbacks xs @ callbacks ys"
  by (induction xs rule: callbacks.induct) simp_all

lemma resubmissions_append [simp]:
  "resubmissions (xs @ ys) = resubmissions xs + resubmissions ys"
  by (induction xs rule: resubmissions.induct) simp_all

lemma submissions_append [simp]: "submissions (xs @ ys) = submissions xs + submissions ys"
  by (induction xs rule: submissions.induct) simp_all

lemma commit_waits_append [simp]: "commit_waits (xs @ ys) = commit_waits xs + commit_waits ys"
  by (induction xs rule: commit_waits.induct) simp_all

lemma error_logs_append [simp]: "error_logs (xs @ ys) = error_logs xs @ error_logs ys"
  by (induction xs rule: error_logs.induct) simp_all


subsection \<open>One attempt\<close>

lemma doInvoke_events:
  assumes "doInvoke cfg w t = (r, t1, ev)"
  shows "callbacks ev = [] \<and> resubmissions ev = 0 \<and> error_logs ev = [] \<and> submissions ev = 1"
  using assms
  by (auto simp: doInvoke_def Let_def split: sum.splits option.splits if_splits)

lemma doInvoke_frame:
  assumes "doInvoke cfg w t = (r, t1, ev)"
  shows "t1 = t\<lparr> txID := txID t1 \<rparr>"
  using assms
  by (auto simp: doInvoke_def Let_def split: sum.splits option.splits if_splits)

lemma doInvoke_error_cases:
  assumes "doInvoke cfg w t = (Some err, t1, ev)"
  shows "\<exists>code format as cause. err = InvokeError code format as cause"
  using assms
  by (auto simp: doInvoke_def Let_def invokeerror_Errorf_def invokeerror_Wrapf_def
      split: sum.splits option.splits if_splits)

lemma attempt_error_task: "attempt_error cfg w t = attempt_error cfg' w t'"
  by (simp add: attempt_error_def doInvoke_def Let_def split: sum.splits option.splits)

lemma fails_with_task: "fails_with cfg w t code = fails_with cfg' w t' code"
  by (simp add: fails_with_def attempt_error_task [of cfg w t cfg' t'])

lemma fails_with_doInvoke:
  assumes "doInvoke cfg w t = (r, t1, ev1)"
  shows "fails_with cfg w t code \<longleftrightarrow> (\<exists>format as cause. r = Some (InvokeError code format as cause))"
proof (cases r)
  case None
  with assms show ?thesis by (simp add: fails_with_def attempt_error_def)
next
  case (Some err)
  with assms doInvoke_error_cases [of cfg w t err t1 ev1]
  show ?thesis by (auto simp: fails_with_def attempt_error_def)
qed

lemma attempt_outcomes:
  "attempt_error cfg w t = None \<or> fails_with cfg w t TransientError
   \<or> fails_with cfg w t PersistentError \<or> fails_with cfg w t TimeoutOnCommit"
proof (cases "doInvoke cfg w t")
  case (fields r t1 ev1)
  show ?thesis
  proof (cases r)
    case None
    with fields show ?thesis by (simp add: attempt_error_def)
  next
    case (Some err)
    with fields doInvoke_error_cases [of cfg w t err t1 ev1]
    obtain code format as cause where "r = Some (InvokeError code format as cause)"
      by auto
    with fields fails_with_doInvoke [OF fields] show ?thesis
      by (cases code) auto
  qed
qed

subsection \<open>One call of Invoke\<close>

text \<open>\<open>Invoke\<close>, once the result of \<open>doInvoke\<close> is known.\<close>

lemma Invoke_frame:
  assumes "Invoke cfg w t = (t', ev, x)"
  shows "t' = t\<lparr> attempt := attempt t', lastErr := lastErr t', txID := txID t' \<rparr>"
proof (cases "doInvoke cfg w t")
  case (fields r t1 ev1)
  from doInvoke_frame [OF fields] obtain tx where t1: "t1 = t\<lparr> txID := tx \<rparr>" by blast
  from assms show ?thesis
    unfolding Invoke_def fields t1
    by (auto simp: Let_def split: option.splits if_splits)
qed

lemma Invoke_submissions:
  assumes "Invoke cfg w t = (t', ev, x)"
  shows "submissions ev = 1"
proof (cases "doInvoke cfg w t")
  case (fields r t1 ev1)
  from assms doInvoke_events [OF fields] show ?thesis
    unfolding Invoke_def fields
    by (auto simp: Let_def split: option.splits if_splits)
qed

lemma Invoke_success:
  assumes "Invoke cfg w t = (t', ev, x)" and "attempt_error cfg w t = None"
  shows "x = Returned \<and> callbacks ev = [None] \<and> resubmissions ev = 0 \<and> error_logs ev = []
         \<and> attempt t' = attempt t \<and> lastErr t' = lastErr t"
proof (cases "doInvoke cfg w t")
  case (fields r t1 ev1)
  from doInvoke_frame [OF fields] obtain tx where t1: "t1 = t\<lparr> txID := tx \<rparr>" by blast
  from assms(2) fields have r: "r = None" by (simp add: attempt_error_def)
  from assms(1) doInvoke_events [OF fields] show ?thesis
    unfolding Invoke_def fields r t1 by auto
qed

lemma Invoke_failure:
  assumes "Invoke cfg w t = (t', ev, x)" and "fails_with cfg w t code"
  shows "lastErr t' = attempt_error cfg w t \<and>
    (if code = TransientError \<and> word_sless (attempt t) (maxAttempts t) then
       attempt t' = attempt t + 1 \<and> callbacks ev = [] \<and> resubmissions ev = 1
       \<and> (case submitDelayedResult w of
             None \<Rightarrow> x = Resubmitted \<and> error_logs ev = []
           | Some e \<Rightarrow> x = Returned
               \<and> error_logs ev = [(''error submitting task: %s'', [ArgError e])])
     else
       attempt t' = attempt t \<and> callbacks ev = [attempt_error cfg w t]
       \<and> resubmissions ev = 0 \<and> error_logs ev = [] \<and> x = Returned)"
proof (cases "doInvoke cfg w t")
  case (fields r t1 ev1)
  from doInvoke_frame [OF fields] obtain tx where t1: "t1 = t\<lparr> txID := tx \<rparr>" by blast
  from assms(2) fails_with_doInvoke [OF fields]
  obtain format as cause where r: "r = Some (InvokeError code format as cause)" by auto
  have ae: "attempt_error cfg w t = r" using fields by (simp add: attempt_error_def)
  from assms(1) doInvoke_events [OF fields] show ?thesis
    unfolding Invoke_def fields r t1 ae
    by (cases code) (auto simp: Let_def split: option.splits)
qed


subsection \<open>Runs\<close>

declare run.simps [simp del]

lemma run_resubmitted:
  assumes "Invoke cfg (env k) t = (t1, ev1, Resubmitted)"
  shows "run cfg env k t = (case run cfg env (Suc k) t1 of (t', ev', x) \<Rightarrow> (t', ev1 @ ev', x))"
  using assms by (subst run.simps) simp

lemma run_over:
  assumes "Invoke cfg (env k) t = (t1, ev1, x)" and "x \<noteq> Resubmitted"
  shows "run cfg env k t = (t1, ev1, x)"
  using assms by (subst run.simps) (cases x; simp)

lemma run_ends:
  "run cfg env k t = (t', ev, x) \<Longrightarrow>
     x = Returned \<and> length (callbacks ev) + length (error_logs ev) = 1
     \<and> (error_logs ev \<noteq> [] \<longrightarrow> (\<exists>j\<ge>k. submitDelayedResult (env j) \<noteq> None))"
proof (induction cfg env k t arbitrary: t' ev x rule: run.induct)
  case (1 cfg env k t)
  obtain t1 ev1 x1 where inv: "Invoke cfg (env k) t = (t1, ev1, x1)"
    by (cases "Invoke cfg (env k) t") auto
  consider (ok) "attempt_error cfg (env k) t = None"
    | (fail) code where "fails_with cfg (env k) t code"
    using attempt_outcomes [of cfg "env k" t] by auto
  then show ?case
  proof cases
    case ok
    from Invoke_success [OF inv ok] have x1: "x1 = Returned" and
      ev1: "callbacks ev1 = [None]" "error_logs ev1 = []" by simp_all
    from run_over [of cfg env k, OF inv] x1 "1.prems" have "t' = t1" "ev = ev1" "x = x1" by simp_all
    with x1 ev1 show ?thesis by simp
  next
    case fail
    note f = Invoke_failure [OF inv fail]
    show ?thesis
    proof (cases "x1 = Resubmitted")
      case True
      with f have ev1: "callbacks ev1 = []" "error_logs ev1 = []"
        by (auto split: if_splits option.splits)
      obtain t2 ev2 x2 where r2: "run cfg env (Suc k) t1 = (t2, ev2, x2)"
        by (cases "run cfg env (Suc k) t1") auto
      from inv True have "(t1, ev1, Resubmitted) = Invoke cfg (env k) t" by simp
      from "1.IH" [OF this refl refl r2]
      have ih: "x2 = Returned" "length (callbacks ev2) + length (error_logs ev2) = 1"
        "error_logs ev2 \<noteq> [] \<longrightarrow> (\<exists>j\<ge>Suc k. submitDelayedResult (env j) \<noteq> None)"
        by simp_all
      from run_resubmitted [of cfg env k t t1 ev1] inv True r2 "1.prems"
      have "t' = t2" "ev = ev1 @ ev2" "x = x2" by simp_all
      with ih ev1 show ?thesis
        by (auto intro: Suc_leD)
    next
      case False
      from run_over [of cfg env k, OF inv False] "1.prems" have eq: "t' = t1" "ev = ev1" "x = x1" by simp_all
      from f False have "x1 = Returned \<and> length (callbacks ev1) + length (error_logs ev1) = 1
          \<and> (error_logs ev1 \<noteq> [] \<longrightarrow> submitDelayedResult (env k) \<noteq> None)"
        by (auto split: if_splits option.splits)
      with eq show ?thesis by auto
    qed
  qed
qed


lemma sint_succ_of_sless:
  fixes a m :: goint
  assumes "sint a < sint m"
  shows "sint (a + 1) = sint a + 1"
proof -
  have "sint m < 2 ^ 63" using sint_lt [of m] by simp
  moreover have "- (2 ^ 63) \<le> sint a" using sint_ge [of a] by simp
  ultimately have "signed_take_bit 63 (sint a + 1) = sint a + 1"
    using assms by (intro signed_take_bit_int_eq_self) auto
  then show ?thesis by (simp add: sint_word_ariths)
qed

text \<open>
  A run that begins with \<open>j\<close> attempts that fail transiently below the maximum, each
  resubmission being accepted: it is those \<open>j\<close> attempts, without a callback, followed by
  the run from the \<open>j\<close>-th environment on.
\<close>

lemma run_resubmitted_prefix:
  assumes "\<forall>i<j. fails_with cfg (env (k + i)) s TransientError
                \<and> submitDelayedResult (env (k + i)) = None"
    and "sint (attempt t) + int j \<le> sint (maxAttempts t)"
  shows "\<exists>t1 ev1.
           run cfg env k t = (case run cfg env (k + j) t1 of (t', ev', x) \<Rightarrow> (t', ev1 @ ev', x))
           \<and> callbacks ev1 = [] \<and> error_logs ev1 = [] \<and> submissions ev1 = j
           \<and> resubmissions ev1 = j
           \<and> sint (attempt t1) = sint (attempt t) + int j
           \<and> maxAttempts t1 = maxAttempts t \<and> callback t1 = callback t"
  using assms
proof (induction j arbitrary: k t)
  case 0
  have "run cfg env k t = (case run cfg env (k + 0) t of (t', ev', x) \<Rightarrow> (t', [] @ ev', x))"
    by (cases "run cfg env k t") simp
  then show ?case by (intro exI [of _ t] exI [of _ "[]"]) simp
next
  case (Suc j)
  obtain ta eva xa where inv: "Invoke cfg (env k) t = (ta, eva, xa)"
    by (cases "Invoke cfg (env k) t") auto
  from Suc.prems(1) have "fails_with cfg (env (k + 0)) s TransientError"
    and sd: "submitDelayedResult (env (k + 0)) = None" by blast+
  then have fw: "fails_with cfg (env k) t TransientError"
    using fails_with_task [of cfg "env k" t TransientError cfg s] by simp
  from Suc.prems(2) have lt: "sint (attempt t) < sint (maxAttempts t)" by simp
  then have less: "word_sless (attempt t) (maxAttempts t)" by (simp add: word_sless_alt)
  from Invoke_failure [OF inv fw] less sd
  have a: "attempt ta = attempt t + 1" "callbacks eva = []" "resubmissions eva = 1"
    "xa = Resubmitted" "error_logs eva = []" by simp_all
  from Invoke_frame [OF inv] have fr: "maxAttempts ta = maxAttempts t" "callback ta = callback t"
    by (metis Task.select_convs(6) Task.surjective Task.update_convs(8,9,13),
        metis Task.select_convs(10) Task.surjective Task.update_convs(8,9,13))
  from a(1) sint_succ_of_sless [OF lt] have sa: "sint (attempt ta) = sint (attempt t) + 1"
    by simp
  have "\<forall>i<j. fails_with cfg (env (Suc k + i)) s TransientError
                \<and> submitDelayedResult (env (Suc k + i)) = None"
    using Suc.prems(1) by (metis Suc_less_eq add_Suc_shift)
  moreover have "sint (attempt ta) + int j \<le> sint (maxAttempts ta)"
    using Suc.prems(2) sa fr by simp
  ultimately obtain t1 ev1 where
    r: "run cfg env (Suc k) ta =
          (case run cfg env (Suc k + j) t1 of (t', ev', x) \<Rightarrow> (t', ev1 @ ev', x))"
    and p: "callbacks ev1 = []" "error_logs ev1 = []" "submissions ev1 = j"
      "resubmissions ev1 = j" "sint (attempt t1) = sint (attempt ta) + int j"
      "maxAttempts t1 = maxAttempts ta" "callback t1 = callback ta"
    using Suc.IH [of "Suc k" ta] by blast
  from inv a(4) have "run cfg env k t =
      (case run cfg env (Suc k) ta of (t', ev', x) \<Rightarrow> (t', eva @ ev', x))"
    using run_resubmitted [of cfg env k t ta eva] by simp
  with r have "run cfg env k t =
      (case run cfg env (k + Suc j) t1 of (t', ev', x) \<Rightarrow> (t', (eva @ ev1) @ ev', x))"
    by (cases "run cfg env (Suc k + j) t1") simp
  moreover have "callbacks (eva @ ev1) = []" "error_logs (eva @ ev1) = []"
    "submissions (eva @ ev1) = Suc j" "resubmissions (eva @ ev1) = Suc j"
    using a p Invoke_submissions [OF inv] by simp_all
  moreover have "sint (attempt t1) = sint (attempt t) + int (Suc j)"
    using p(5) sa by simp
  moreover have "maxAttempts t1 = maxAttempts t" "callback t1 = callback t"
    using p fr by simp_all
  ultimately show ?case by blast
qed


lemma word_of_sint_eq:
  fixes a b :: goint
  assumes "sint a = sint b"
  shows "a = b"
  using assms by (rule signed_word_eqI)

lemma run_last_attempt:
  assumes "\<forall>i<j. (\<forall>s. fails_with cfg (env i) s TransientError) \<and> submitDelayedResult (env i) = None"
    and "sint (attempt t) + int j \<le> sint (maxAttempts t)"
  obtains t1 ev1 where
    "run cfg env 0 t = (case run cfg env j t1 of (t', ev', x) \<Rightarrow> (t', ev1 @ ev', x))"
    and "callbacks ev1 = []" and "error_logs ev1 = []" and "submissions ev1 = j"
    and "sint (attempt t1) = sint (attempt t) + int j"
    and "maxAttempts t1 = maxAttempts t"
proof -
  from assms(1) have "\<forall>i<j. fails_with cfg (env (0 + i)) t TransientError
                \<and> submitDelayedResult (env (0 + i)) = None"
    by simp
  from run_resubmitted_prefix [OF this assms(2)] that show ?thesis
    by auto
qed

lemma fails_with_unique:
  assumes "fails_with cfg w t c" and "fails_with cfg w t c'"
  shows "c = c'"
  using assms
  by (auto simp: fails_with_def split: option.splits)

lemma success_not_fails_with:
  assumes "attempt_error cfg w t = None"
  shows "\<not> fails_with cfg w t c"
  using assms by (simp add: fails_with_def)

lemma run_outcome_holds:
  "run cfg env k t = (t', ev, x) \<Longrightarrow> run_outcome cfg env k t ev"
proof (induction cfg env k t arbitrary: t' ev x rule: run.induct)
  case (1 cfg env k t)
  obtain t1 ev1 x1 where inv: "Invoke cfg (env k) t = (t1, ev1, x1)"
    by (cases "Invoke cfg (env k) t") auto
  note sub1 = Invoke_submissions [OF inv]
  consider (ok) "attempt_error cfg (env k) t = None"
    | (fail) code where "fails_with cfg (env k) t code"
    using attempt_outcomes [of cfg "env k" t] by auto
  then show ?case
  proof cases
    case ok
    from Invoke_success [OF inv ok] have x1: "x1 = Returned" and
      ev1: "callbacks ev1 = [None]" "error_logs ev1 = []" by simp_all
    from run_over [of cfg env k, OF inv] x1 "1.prems" have "ev = ev1" by simp
    with ev1 sub1 ok success_not_fails_with [OF ok, of TransientError] show ?thesis
      by (simp add: run_outcome_def split: option.splits)
  next
    case fail
    note f = Invoke_failure [OF inv fail]
    show ?thesis
    proof (cases "x1 = Resubmitted")
      case True
      with f have c: "code = TransientError" and less: "word_sless (attempt t) (maxAttempts t)"
        and a1: "attempt t1 = attempt t + 1"
        and ev1: "callbacks ev1 = []" "error_logs ev1 = []"
        by (auto split: if_splits option.splits)
      from less have lt: "sint (attempt t) < sint (maxAttempts t)"
        by (simp add: word_sless_alt)
      from a1 sint_succ_of_sless [OF lt] have sa: "sint (attempt t1) = sint (attempt t) + 1"
        by simp
      from Invoke_frame [OF inv] have mx: "maxAttempts t1 = maxAttempts t"
        by (metis Task.select_convs(6) Task.surjective Task.update_convs(8,9,13))
      obtain t2 ev2 x2 where r2: "run cfg env (Suc k) t1 = (t2, ev2, x2)"
        by (cases "run cfg env (Suc k) t1") auto
      from inv True have "(t1, ev1, Resubmitted) = Invoke cfg (env k) t" by simp
      from "1.IH" [OF this refl refl r2] have ih: "run_outcome cfg env (Suc k) t1 ev2" .
      from run_resubmitted [of cfg env k t t1 ev1] inv True r2 "1.prems"
      have ev: "ev = ev1 @ ev2" by simp
      define n2 where "n2 = submissions ev2"
      from ih have n2: "1 \<le> n2" by (simp add: run_outcome_def Let_def n2_def)
      have n: "submissions ev = Suc n2" using ev sub1 by (simp add: n2_def)
      have idx: "k + Suc n2 - 1 = Suc k + n2 - 1" using n2 by simp
      have fw: "fails_with cfg w t1 c = fails_with cfg w t c" for w c
        by (rule fails_with_task)
      have ae: "attempt_error cfg w t1 = attempt_error cfg w t" for w
        by (rule attempt_error_task)
      have cond: "sint (attempt t1) + int n2 - 1 < sint (maxAttempts t1)
                  \<longleftrightarrow> sint (attempt t) + int (Suc n2) - 1 < sint (maxAttempts t)"
        using sa mx by simp
      have cb: "callbacks ev = callbacks ev2" "error_logs ev = error_logs ev2"
        using ev ev1 by simp_all
      from ih n2 show ?thesis
        unfolding run_outcome_def Let_def n n2_def [symmetric] idx fw ae cond cb
        by simp
    next
      case False
      from run_over [of cfg env k, OF inv False] "1.prems" have eq: "ev = ev1" by simp
      show ?thesis
      proof (cases "code = TransientError \<and> word_sless (attempt t) (maxAttempts t)")
        case True
        with f False obtain e where e: "submitDelayedResult (env k) = Some e"
          and ev1: "callbacks ev1 = []"
            "error_logs ev1 = [(''error submitting task: %s'', [ArgError e])]"
          by (auto split: option.splits)
        from True fail have "fails_with cfg (env k) t TransientError" by simp
        moreover from True have "sint (attempt t) < sint (maxAttempts t)"
          by (simp add: word_sless_alt)
        ultimately show ?thesis
          using eq ev1 e sub1 by (simp add: run_outcome_def)
      next
        case nt: False
        with f have ev1: "callbacks ev1 = [attempt_error cfg (env k) t]" "error_logs ev1 = []"
          by (auto split: if_splits)
        have "\<not> (fails_with cfg (env k) t TransientError
                  \<and> sint (attempt t) < sint (maxAttempts t))"
          using nt fails_with_unique [OF fail] by (auto simp: word_sless_alt)
        then show ?thesis
          using eq ev1 sub1 by (auto simp: run_outcome_def split: option.splits)
      qed
    qed
  qed
qed

lemma timeout_fails_with:
  "fails_with cfg w t TimeoutOnCommit \<longleftrightarrow> (\<exists>txnID. execResult w = Inr txnID) \<and> commitEvent w = None"
  by (auto simp: fails_with_def attempt_error_def doInvoke_def Let_def
      invokeerror_Wrapf_def invokeerror_Errorf_def split: sum.splits option.splits)

subsection \<open>Evaluation of the examples\<close>

lemma env_of_list_Nil: "env_of_list [] w k = w"
  by (simp add: env_of_list_def)

lemmas example_defs =
  example_config_def example_args_def example_task_def notified_def timed_out_def
  not_submitted_def env_of_list_def New_def

lemmas eval_defs =
  Invoke_def doInvoke_def Let_def invokeerror_Errorf_def invokeerror_Wrapf_def
  TxValidationCode_VALID_def TxValidationCode_DUPLICATE_TXID_def
  TxValidationCode_MVCC_READ_CONFLICT_def TxValidationCode_PHANTOM_READ_CONFLICT_def
  attempt_error_def fails_with_def Attempts_def LastError_def word_sless_alt

section \<open>The claims\<close>

text \<open>
  Claim C1, as amended. Every run of the state machine ends, by a return. It ends with
  exactly one callback invocation, carrying the result of its last attempt, and with no
  error logged, except when the scheduling of a resubmission fails: when the last attempt
  of the run fails transiently below the maximum of attempts and \<open>SubmitDelayed\<close> returns an
  error, the run ends with that error logged and with no callback invocation at all. So
  the number of callback invocations is one when no error is logged and zero otherwise,
  and it is one whenever no scheduling call can fail.

  For a single call of \<open>Invoke\<close>: an attempt whose transient failure leads to an accepted
  resubmission does not invoke the callback; and an attempt that fails transiently below
  the maximum while \<open>SubmitDelayed\<close> returns the error \<open>e\<close> returns with \<open>e\<close> logged and
  without invoking the callback, which ends the run.
\<close>

theorem callback_once_unless_orphaned:
  "(case run cfg env k t of
      (t', ev, x) \<Rightarrow>
        x = Returned
        \<and> length (callbacks ev) = (if error_logs ev = [] then 1 else 0)
        \<and> ((\<forall>j\<ge>k. submitDelayedResult (env j) = None) \<longrightarrow> length (callbacks ev) = 1)
        \<and> (let n = submissions ev; lst = env (k + n - 1) in
             1 \<le> n \<and>
             (case submitDelayedResult lst of
                Some e \<Rightarrow>
                  if fails_with cfg lst t TransientError
                     \<and> sint (attempt t) + int n - 1 < sint (maxAttempts t)
                  then callbacks ev = []
                     \<and> error_logs ev = [(''error submitting task: %s'', [ArgError e])]
                  else callbacks ev = [attempt_error cfg lst t] \<and> error_logs ev = []
              | None \<Rightarrow> callbacks ev = [attempt_error cfg lst t] \<and> error_logs ev = [])))
   \<and> (case Invoke cfg w t of
        (t', ev, x) \<Rightarrow>
          (x = Resubmitted \<longrightarrow> callbacks ev = [])
          \<and> (fails_with cfg w t TransientError \<and> word_sless (attempt t) (maxAttempts t)
               \<and> submitDelayedResult w = Some e \<longrightarrow>
             x = Returned \<and> callbacks ev = []
             \<and> error_logs ev = [(''error submitting task: %s'', [ArgError e])]
             \<and> (env k = w \<longrightarrow> run cfg env k t = (t', ev, x))))"
proof (intro conjI)
  obtain t' ev x where r: "run cfg env k t = (t', ev, x)"
    by (cases "run cfg env k t") auto
  from run_ends [OF r] have "x = Returned
        \<and> length (callbacks ev) = (if error_logs ev = [] then 1 else 0)
        \<and> ((\<forall>j\<ge>k. submitDelayedResult (env j) = None) \<longrightarrow> length (callbacks ev) = 1)"
    by (cases "error_logs ev") auto
  with run_outcome_holds [OF r]
  show "case run cfg env k t of
      (t', ev, x) \<Rightarrow>
        x = Returned
        \<and> length (callbacks ev) = (if error_logs ev = [] then 1 else 0)
        \<and> ((\<forall>j\<ge>k. submitDelayedResult (env j) = None) \<longrightarrow> length (callbacks ev) = 1)
        \<and> (let n = submissions ev; lst = env (k + n - 1) in
             1 \<le> n \<and>
             (case submitDelayedResult lst of
                Some e \<Rightarrow>
                  if fails_with cfg lst t TransientError
                     \<and> sint (attempt t) + int n - 1 < sint (maxAttempts t)
                  then callbacks ev = []
                     \<and> error_logs ev = [(''error submitting task: %s'', [ArgError e])]
                  else callbacks ev = [attempt_error cfg lst t] \<and> error_logs ev = []
              | None \<Rightarrow> callbacks ev = [attempt_error cfg lst t] \<and> error_logs ev = []))"
    unfolding r prod.case run_outcome_def by blast
next
  obtain t' ev x where inv: "Invoke cfg w t = (t', ev, x)"
    by (cases "Invoke cfg w t") auto
  consider (ok) "attempt_error cfg w t = None" | (fail) code where "fails_with cfg w t code"
    using attempt_outcomes [of cfg w t] by auto
  then have d: "x = Resubmitted \<longrightarrow> callbacks ev = []"
  proof cases
    case ok
    with Invoke_success [OF inv] show ?thesis by simp
  next
    case fail
    from Invoke_failure [OF inv fail] show ?thesis
      by (auto split: if_splits option.splits)
  qed
  have e: "x = Returned \<and> callbacks ev = []
             \<and> error_logs ev = [(''error submitting task: %s'', [ArgError e])]
             \<and> (env k = w \<longrightarrow> run cfg env k t = (t', ev, x))"
    if h: "fails_with cfg w t TransientError" "word_sless (attempt t) (maxAttempts t)"
      "submitDelayedResult w = Some e"
  proof -
    from Invoke_failure [OF inv h(1)] h(2,3)
    have f: "x = Returned" "callbacks ev = []"
      "error_logs ev = [(''error submitting task: %s'', [ArgError e])]"
      by simp_all
    moreover have "env k = w \<longrightarrow> run cfg env k t = (t', ev, x)"
      using run_over [of cfg env k t t' ev x] inv f(1) by auto
    ultimately show ?thesis by simp
  qed
  from d e show "case Invoke cfg w t of
        (t', ev, x) \<Rightarrow>
          (x = Resubmitted \<longrightarrow> callbacks ev = [])
          \<and> (fails_with cfg w t TransientError \<and> word_sless (attempt t) (maxAttempts t)
               \<and> submitDelayedResult w = Some e \<longrightarrow>
             x = Returned \<and> callbacks ev = []
             \<and> error_logs ev = [(''error submitting task: %s'', [ArgError e])]
             \<and> (env k = w \<longrightarrow> run cfg env k t = (t', ev, x)))"
    unfolding inv prod.case by blast
qed

text \<open>
  The run in which the scheduling call fails on the first attempt of two ends without a
  callback invocation.
\<close>

theorem callback_exactly_once_counterexample:
  "callbacks (fst (snd (run example_config
      (env_of_list [] (not_submitted (Some (PlainError ''executor stopped'')))) 0
      (example_task 2)))) = []
   \<and> snd (snd (run example_config
      (env_of_list [] (not_submitted (Some (PlainError ''executor stopped'')))) 0
      (example_task 2))) = Returned"
  by (subst run.simps, simp add: example_defs eval_defs)+

theorem callback_once_unless_orphaned_witness:
  "length (callbacks (fst (snd (run example_config
      (env_of_list [notified 11, notified 9] (notified 0)) 0 (example_task 3))))) = 1
   \<and> snd (snd (Invoke example_config (notified 11) (example_task 3))) = Resubmitted
   \<and> callbacks (fst (snd (Invoke example_config (notified 11) (example_task 3)))) = []
   \<and> callbacks (fst (snd (run example_config
        (env_of_list [] (not_submitted (Some (PlainError ''executor stopped'')))) 0
        (example_task 2)))) = []
   \<and> error_logs (fst (snd (run example_config
        (env_of_list [] (not_submitted (Some (PlainError ''executor stopped'')))) 0
        (example_task 2))))
      = [(''error submitting task: %s'', [ArgError (PlainError ''executor stopped'')])]"
proof -
  let ?w = "not_submitted (Some (PlainError ''executor stopped''))"
  have h1: "\<forall>j\<ge>0. submitDelayedResult
              (env_of_list [notified 11, notified 9] (notified 0) j) = None"
    by (simp add: env_of_list_def notified_def nth_Cons')
  have h2: "snd (snd (Invoke example_config (notified 11) (example_task 3))) = Resubmitted"
    by (simp add: example_defs eval_defs)
  have h3: "fails_with example_config ?w (example_task 2) TransientError
            \<and> word_sless (attempt (example_task 2)) (maxAttempts (example_task 2))
            \<and> submitDelayedResult ?w = Some (PlainError ''executor stopped'')"
    by (simp add: example_defs eval_defs)
  have h4: "env_of_list [] ?w 0 = ?w"
    by (simp add: env_of_list_Nil)
  note run3 = callback_once_unless_orphaned
      [where cfg = example_config and k = 0 and t = "example_task 3" and w = "notified 11"
         and env = "env_of_list [notified 11, notified 9] (notified 0)"
         and e = "PlainError ''executor stopped''"]
  have a: "length (callbacks (fst (snd (run example_config
      (env_of_list [notified 11, notified 9] (notified 0)) 0 (example_task 3))))) = 1"
    using h1 run3 [THEN conjunct1, unfolded case_prod_beta, THEN conjunct2, THEN conjunct2,
        THEN conjunct1]
    by blast
  have a': "callbacks (fst (snd (Invoke example_config (notified 11) (example_task 3)))) = []"
    using h2 run3 [THEN conjunct2, unfolded case_prod_beta, THEN conjunct1]
    by blast
  note run2 = callback_once_unless_orphaned
      [where cfg = example_config and k = 0 and t = "example_task 2" and w = ?w
         and env = "env_of_list [] ?w" and e = "PlainError ''executor stopped''"]
  have b: "callbacks (fst (snd (run example_config (env_of_list [] ?w) 0 (example_task 2)))) = []
   \<and> error_logs (fst (snd (run example_config (env_of_list [] ?w) 0 (example_task 2))))
      = [(''error submitting task: %s'', [ArgError (PlainError ''executor stopped'')])]"
    using h3 h4 run2 [THEN conjunct2, unfolded case_prod_beta, THEN conjunct2]
    by simp
  from a a' b h2 show ?thesis by simp
qed

text \<open>
  Claim C2. When the submission succeeds and a commit notification arrives before the
  timeout, the attempt is classified by the validation code of the notification: it
  succeeds (nil error) exactly for \<open>VALID\<close>, fails with a \<open>TransientError\<close> exactly for
  \<open>DUPLICATE_TXID\<close>, \<open>MVCC_READ_CONFLICT\<close> and \<open>PHANTOM_READ_CONFLICT\<close>, and fails with a
  \<open>PersistentError\<close> exactly for every other code.
\<close>

theorem doInvoke_classifies_validation_code:
  assumes "execResult w = Inr txnID" and "commitEvent w = Some s"
  shows "(attempt_error cfg w t = None \<longleftrightarrow> TxValidationCode s = TxValidationCode_VALID)
    \<and> (fails_with cfg w t TransientError \<longleftrightarrow>
         TxValidationCode s \<in> {TxValidationCode_DUPLICATE_TXID,
           TxValidationCode_MVCC_READ_CONFLICT, TxValidationCode_PHANTOM_READ_CONFLICT})
    \<and> (fails_with cfg w t PersistentError \<longleftrightarrow>
         TxValidationCode s \<notin> {TxValidationCode_VALID, TxValidationCode_DUPLICATE_TXID,
           TxValidationCode_MVCC_READ_CONFLICT, TxValidationCode_PHANTOM_READ_CONFLICT})
    \<and> \<not> fails_with cfg w t TimeoutOnCommit"
  using assms
  by (auto simp: fails_with_def attempt_error_def doInvoke_def Let_def
      invokeerror_Wrapf_def TxValidationCode_VALID_def TxValidationCode_DUPLICATE_TXID_def
      TxValidationCode_MVCC_READ_CONFLICT_def TxValidationCode_PHANTOM_READ_CONFLICT_def)

theorem doInvoke_classifies_validation_code_witness:
  "attempt_error example_config (notified 0) (example_task 3) = None
   \<and> fails_with example_config (notified 11) (example_task 3) TransientError
   \<and> fails_with example_config (notified 10) (example_task 3) PersistentError"
  using doInvoke_classifies_validation_code
          [of "notified 0" "''tx1''" "\<lparr> TxValidationCode = 0, Error = None \<rparr>"
              example_config "example_task 3"]
        doInvoke_classifies_validation_code
          [of "notified 11" "''tx1''" "\<lparr> TxValidationCode = 11, Error = None \<rparr>"
              example_config "example_task 3"]
        doInvoke_classifies_validation_code
          [of "notified 10" "''tx1''" "\<lparr> TxValidationCode = 10, Error = None \<rparr>"
              example_config "example_task 3"]
  by (simp add: notified_def TxValidationCode_VALID_def TxValidationCode_DUPLICATE_TXID_def
      TxValidationCode_MVCC_READ_CONFLICT_def TxValidationCode_PHANTOM_READ_CONFLICT_def)

text \<open>
  Claim C3. Let the task be built by \<open>New\<close> with \<open>maxAttempts = N\<close>, \<open>N \<ge> 1\<close>. If each of
  the \<open>N\<close> attempts fails with a \<open>TransientError\<close> (the \<open>N\<close> attempts take place: the executor
  accepts each of the \<open>N - 1\<close> resubmissions), then the callback is invoked exactly once,
  with the error of the \<open>N\<close>-th attempt, which is also the last error recorded, and
  \<open>Attempts()\<close> returns \<open>N\<close>.
\<close>

theorem transient_failures_exhaust_attempts:
  assumes "word_sle 1 N"
    and "\<forall>k < nat (sint N). \<forall>s. fails_with cfg (env k) s TransientError"
    and "\<forall>k < nat (sint N) - 1. submitDelayedResult (env k) = None"
  shows "case run cfg env 0 (New i client cc as ex N delay verb p cb) of
     (t', ev, x) \<Rightarrow>
       x = Returned
       \<and> callbacks ev = [attempt_error cfg (env (nat (sint N) - 1)) t']
       \<and> LastError t' = attempt_error cfg (env (nat (sint N) - 1)) t'
       \<and> Attempts t' = N
       \<and> submissions ev = nat (sint N)"
proof -
  define t where "t = New i client cc as ex N delay verb p cb"
  define j where "j = nat (sint N) - 1"
  from assms(1) have N: "1 \<le> sint N" by (simp add: word_sle_eq)
  have t: "attempt t = 1" "maxAttempts t = N" by (simp_all add: t_def New_def)
  have "\<forall>i<j. (\<forall>s. fails_with cfg (env i) s TransientError) \<and> submitDelayedResult (env i) = None"
    using assms(2,3) by (simp add: j_def)
  moreover have "sint (attempt t) + int j \<le> sint (maxAttempts t)"
    using N t by (simp add: j_def)
  ultimately obtain t1 ev1 where
    r: "run cfg env 0 t = (case run cfg env j t1 of (t', ev', x) \<Rightarrow> (t', ev1 @ ev', x))"
    and p: "callbacks ev1 = []" "error_logs ev1 = []" "submissions ev1 = j"
      "sint (attempt t1) = sint (attempt t) + int j" "maxAttempts t1 = maxAttempts t"
    by (rule run_last_attempt)
  from p(4) N t have "sint (attempt t1) = sint N" by (simp add: j_def)
  then have a1: "attempt t1 = N" by (rule word_of_sint_eq)
  obtain t2 ev2 x2 where inv: "Invoke cfg (env j) t1 = (t2, ev2, x2)"
    by (cases "Invoke cfg (env j) t1") auto
  have "j < nat (sint N)" using N by (simp add: j_def)
  with assms(2) have fw: "fails_with cfg (env j) t1 TransientError" by blast
  have nl: "\<not> word_sless (attempt t1) (maxAttempts t1)"
    using a1 p(5) t by simp
  from Invoke_failure [OF inv fw] nl
  have f: "x2 = Returned" "callbacks ev2 = [attempt_error cfg (env j) t1]"
    "attempt t2 = attempt t1" "lastErr t2 = attempt_error cfg (env j) t1"
    by simp_all
  from run_over [of cfg env j t1 t2 ev2 x2] inv f(1)
  have "run cfg env j t1 = (t2, ev2, x2)" by simp
  with r have "run cfg env 0 t = (t2, ev1 @ ev2, x2)" by simp
  moreover have "attempt_error cfg (env j) t1 = attempt_error cfg (env j) t2"
    by (rule attempt_error_task)
  moreover have "submissions (ev1 @ ev2) = nat (sint N)"
    using p(3) Invoke_submissions [OF inv] N by (simp add: j_def)
  ultimately show ?thesis
    using f p a1 unfolding t_def [symmetric] j_def [symmetric]
    by (simp add: Attempts_def LastError_def)
qed

theorem transient_failures_exhaust_attempts_witness:
  "case run example_config (env_of_list [] (notified 11)) 0 (example_task 3) of
     (t', ev, x) \<Rightarrow>
       x = Returned
       \<and> callbacks ev = [attempt_error example_config (notified 11) t']
       \<and> LastError t' = attempt_error example_config (notified 11) t'
       \<and> Attempts t' = 3
       \<and> submissions ev = 3"
proof -
  have h1: "word_sle 1 (3 :: goint)" by (simp add: word_sle_eq)
  have h2: "\<forall>k < nat (sint (3 :: goint)).
              \<forall>s. fails_with example_config (env_of_list [] (notified 11) k) s TransientError"
    by (simp add: example_defs eval_defs)
  have h3: "\<forall>k < nat (sint (3 :: goint)) - 1.
              submitDelayedResult (env_of_list [] (notified 11) k) = None"
    by (simp add: example_defs)
  from transient_failures_exhaust_attempts [where env = "env_of_list [] (notified 11)",
      OF h1 h2 h3, where i = "''task1''" and client = 1 and cc = "''example_cc''" and as = example_args
        and ex = 2 and delay = 10000000 and verb = False and p = 3 and cb = 4]
  show ?thesis
    by (simp add: example_task_def env_of_list_Nil)
qed

text \<open>
  Claim C4. Let the task be built by \<open>New\<close> with \<open>maxAttempts = N\<close>, \<open>N \<ge> 1\<close>. If the first
  \<open>N - 1\<close> attempts fail with a \<open>TransientError\<close>, each followed by its resubmission, and the
  \<open>N\<close>-th attempt succeeds, then the callback is invoked exactly once, with nil, and
  \<open>Attempts()\<close> returns \<open>N\<close>.
\<close>

theorem transient_failures_then_success:
  assumes "word_sle 1 N"
    and "\<forall>k < nat (sint N) - 1.
           (\<forall>s. fails_with cfg (env k) s TransientError) \<and> submitDelayedResult (env k) = None"
    and "\<forall>s. attempt_error cfg (env (nat (sint N) - 1)) s = None"
  shows "case run cfg env 0 (New i client cc as ex N delay verb p cb) of
     (t', ev, x) \<Rightarrow>
       x = Returned \<and> callbacks ev = [None] \<and> Attempts t' = N
       \<and> submissions ev = nat (sint N)"
proof -
  define t where "t = New i client cc as ex N delay verb p cb"
  define j where "j = nat (sint N) - 1"
  from assms(1) have N: "1 \<le> sint N" by (simp add: word_sle_eq)
  have t: "attempt t = 1" "maxAttempts t = N" by (simp_all add: t_def New_def)
  have "\<forall>i<j. (\<forall>s. fails_with cfg (env i) s TransientError) \<and> submitDelayedResult (env i) = None"
    using assms(2) by (simp add: j_def)
  moreover have "sint (attempt t) + int j \<le> sint (maxAttempts t)"
    using N t by (simp add: j_def)
  ultimately obtain t1 ev1 where
    r: "run cfg env 0 t = (case run cfg env j t1 of (t', ev', x) \<Rightarrow> (t', ev1 @ ev', x))"
    and p: "callbacks ev1 = []" "error_logs ev1 = []" "submissions ev1 = j"
      "sint (attempt t1) = sint (attempt t) + int j" "maxAttempts t1 = maxAttempts t"
    by (rule run_last_attempt)
  from p(4) N t have "sint (attempt t1) = sint N" by (simp add: j_def)
  then have a1: "attempt t1 = N" by (rule word_of_sint_eq)
  obtain t2 ev2 x2 where inv: "Invoke cfg (env j) t1 = (t2, ev2, x2)"
    by (cases "Invoke cfg (env j) t1") auto
  from assms(3) have ok: "attempt_error cfg (env j) t1 = None" by (simp add: j_def)
  from Invoke_success [OF inv ok]
  have f: "x2 = Returned" "callbacks ev2 = [None]" "attempt t2 = attempt t1"
    by simp_all
  from run_over [of cfg env j t1 t2 ev2 x2] inv f(1)
  have "run cfg env j t1 = (t2, ev2, x2)" by simp
  with r have "run cfg env 0 t = (t2, ev1 @ ev2, x2)" by simp
  moreover have "submissions (ev1 @ ev2) = nat (sint N)"
    using p(3) Invoke_submissions [OF inv] N by (simp add: j_def)
  ultimately show ?thesis
    using f p a1 unfolding t_def [symmetric]
    by (simp add: Attempts_def)
qed

theorem transient_failures_then_success_witness:
  "case run example_config (env_of_list [notified 11, notified 11] (notified 0)) 0
          (example_task 3) of
     (t', ev, x) \<Rightarrow>
       x = Returned \<and> callbacks ev = [None] \<and> Attempts t' = 3 \<and> submissions ev = 3"
proof -
  have h1: "word_sle 1 (3 :: goint)" by (simp add: word_sle_eq)
  have h2: "\<forall>k < nat (sint (3 :: goint)) - 1.
      (\<forall>s. fails_with example_config
              (env_of_list [notified 11, notified 11] (notified 0) k) s TransientError)
      \<and> submitDelayedResult (env_of_list [notified 11, notified 11] (notified 0) k) = None"
    by (simp add: example_defs eval_defs nth_Cons')
  have h3: "\<forall>s. attempt_error example_config
      (env_of_list [notified 11, notified 11] (notified 0) (nat (sint (3 :: goint)) - 1)) s = None"
    by (simp add: example_defs eval_defs)
  from transient_failures_then_success [OF h1 h2 h3,
      where i = "''task1''" and client = 1 and cc = "''example_cc''" and as = example_args
        and ex = 2 and delay = 10000000 and verb = False and p = 3 and cb = 4]
  show ?thesis
    by (simp add: example_task_def)
qed

text \<open>
  Claim C5. An attempt that fails with a \<open>PersistentError\<close> or with \<open>TimeoutOnCommit\<close> (the
  latter is the commit wait of a submitted transaction timing out) is never retried,
  whatever the attempt number and the maximum: \<open>Invoke\<close> asks for no resubmission, invokes
  the callback once with the classified error and returns, which ends the run; the attempt
  counter keeps its value, so it is 1 for a task that \<open>New\<close> has just built.
\<close>

theorem terminal_error_not_retried:
  assumes "fails_with cfg w t PersistentError \<or> fails_with cfg w t TimeoutOnCommit"
  shows "(fails_with cfg w t TimeoutOnCommit \<longleftrightarrow>
            (\<exists>txnID. execResult w = Inr txnID) \<and> commitEvent w = None)
    \<and> (case Invoke cfg w t of
         (t', ev, x) \<Rightarrow>
           x = Returned \<and> resubmissions ev = 0 \<and> callbacks ev = [attempt_error cfg w t]
           \<and> attempt_error cfg w t \<noteq> None
           \<and> Attempts t' = Attempts t \<and> LastError t' = attempt_error cfg w t
           \<and> (env k = w \<longrightarrow> run cfg env k t = (t', ev, x))
           \<and> (t = New i client cc as ex maxAtt delay verb p cb \<longrightarrow> Attempts t' = 1))"
proof (cases "Invoke cfg w t")
  case (fields t' ev x)
  from assms obtain code where f: "fails_with cfg w t code" and c: "code \<noteq> TransientError"
    by auto
  from Invoke_failure [OF fields f] c
  have a: "x = Returned" "resubmissions ev = 0" "callbacks ev = [attempt_error cfg w t]"
    "attempt t' = attempt t" "lastErr t' = attempt_error cfg w t"
    by simp_all
  have "attempt_error cfg w t \<noteq> None"
    using f by (auto simp: fails_with_def split: option.splits)
  moreover have "env k = w \<longrightarrow> run cfg env k t = (t', ev, x)"
    using run_over [of cfg env k t t' ev x] fields a(1) by auto
  moreover have "t = New i client cc as ex maxAtt delay verb p cb \<longrightarrow> Attempts t' = 1"
    using a(4) by (simp add: Attempts_def New_def)
  ultimately show ?thesis
    using fields a timeout_fails_with [of cfg w t] by (simp add: Attempts_def LastError_def)
qed

theorem terminal_error_not_retried_witness:
  "snd (snd (Invoke example_config timed_out (example_task 3))) = Returned
   \<and> resubmissions (fst (snd (Invoke example_config timed_out (example_task 3)))) = 0
   \<and> callbacks (fst (snd (Invoke example_config timed_out (example_task 3))))
       = [attempt_error example_config timed_out (example_task 3)]
   \<and> Attempts (fst (Invoke example_config timed_out (example_task 3))) = 1
   \<and> snd (snd (Invoke example_config (notified 10) (example_task 3))) = Returned
   \<and> resubmissions (fst (snd (Invoke example_config (notified 10) (example_task 3)))) = 0
   \<and> callbacks (fst (snd (Invoke example_config (notified 10) (example_task 3))))
       = [attempt_error example_config (notified 10) (example_task 3)]
   \<and> Attempts (fst (Invoke example_config (notified 10) (example_task 3))) = 1"
proof -
  have h1: "fails_with example_config timed_out (example_task 3) PersistentError
            \<or> fails_with example_config timed_out (example_task 3) TimeoutOnCommit"
    by (simp add: example_defs eval_defs)
  have h2: "fails_with example_config (notified 10) (example_task 3) PersistentError
            \<or> fails_with example_config (notified 10) (example_task 3) TimeoutOnCommit"
    by (simp add: example_defs eval_defs)
  from terminal_error_not_retried [OF h1, where env = "env_of_list [] timed_out" and k = 0
      and i = "''task1''" and client = 1 and cc = "''example_cc''" and as = example_args
      and ex = 2 and maxAtt = 3 and delay = 10000000 and verb = False and p = 3 and cb = 4]
    terminal_error_not_retried [OF h2, where env = "env_of_list [] (notified 10)" and k = 0
      and i = "''task1''" and client = 1 and cc = "''example_cc''" and as = example_args
      and ex = 2 and maxAtt = 3 and delay = 10000000 and verb = False and p = 3 and cb = 4]
  show ?thesis
    by (simp add: case_prod_beta example_task_def Attempts_def New_def)
qed

text \<open>
  Claim C6. When the submission call itself returns an error, \<open>doInvoke\<close> returns a
  \<open>TransientError\<close> that carries it, without waiting for a commit notification (whatever
  would have arrived does not matter) and without touching the task, so no transaction id
  is recorded. \<open>Invoke\<close> then takes the retry decision: a resubmission below the maximum
  of attempts, the callback with the error otherwise.
\<close>

theorem submission_failure_is_transient:
  assumes "execResult w = Inl e"
  shows "(case doInvoke cfg w t of
            (r, t1, ev) \<Rightarrow>
              r = Some (invokeerror_Errorf TransientError
                          ''SendTransactionProposal return error: %v'' [ArgError e])
              \<and> commit_waits ev = 0 \<and> t1 = t)
    \<and> fails_with cfg w t TransientError
    \<and> doInvoke cfg (w\<lparr> commitEvent := c \<rparr>) t = doInvoke cfg w t
    \<and> (case Invoke cfg w t of
          (t', ev, x) \<Rightarrow>
            txID t' = txID t \<and> commit_waits ev = 0
            \<and> (if word_sless (attempt t) (maxAttempts t)
                then resubmissions ev = 1 \<and> callbacks ev = []
                else resubmissions ev = 0 \<and> callbacks ev = [attempt_error cfg w t]))"
proof (intro conjI)
  show d: "case doInvoke cfg w t of
            (r, t1, ev) \<Rightarrow>
              r = Some (invokeerror_Errorf TransientError
                          ''SendTransactionProposal return error: %v'' [ArgError e])
              \<and> commit_waits ev = 0 \<and> t1 = t"
    using assms by (simp add: doInvoke_def)
  show "fails_with cfg w t TransientError"
    using assms by (simp add: fails_with_def attempt_error_def doInvoke_def invokeerror_Errorf_def)
  show "doInvoke cfg (w\<lparr> commitEvent := c \<rparr>) t = doInvoke cfg w t"
    using assms by (simp add: doInvoke_def)
  show "case Invoke cfg w t of
          (t', ev, x) \<Rightarrow>
            txID t' = txID t \<and> commit_waits ev = 0
            \<and> (if word_sless (attempt t) (maxAttempts t)
                then resubmissions ev = 1 \<and> callbacks ev = []
                else resubmissions ev = 0 \<and> callbacks ev = [attempt_error cfg w t])"
    using assms
    by (simp add: Invoke_def doInvoke_def attempt_error_def invokeerror_Errorf_def Let_def
        split: option.splits)
qed

theorem submission_failure_is_transient_witness:
  "fails_with example_config (not_submitted None) (example_task 3) TransientError
   \<and> commit_waits (snd (snd (doInvoke example_config (not_submitted None) (example_task 3)))) = 0
   \<and> txID (fst (Invoke example_config (not_submitted None) (example_task 3)))
       = txID (example_task 3)"
proof -
  have h: "execResult (not_submitted None) = Inl (PlainError ''connection refused'')"
    by (simp add: not_submitted_def)
  from submission_failure_is_transient
         [OF h, where cfg = example_config and t = "example_task 3" and c = None]
  show ?thesis
    by (simp add: case_prod_beta)
qed

text \<open>
  Claim C7. Let a run begin with \<open>j\<close> attempts (possibly none) that fail transiently and
  are resubmitted, and let the next attempt fail transiently below the maximum of attempts
  while \<open>SubmitDelayed\<close> returns the error \<open>e\<close>. Then \<open>e\<close> is logged and nothing else happens:
  the run is over after these \<open>j + 1\<close> attempts and the callback has not been invoked in
  it.
\<close>

theorem scheduling_failure_orphans_task:
  assumes "\<forall>i<j. (\<forall>s. fails_with cfg (env i) s TransientError)
                \<and> submitDelayedResult (env i) = None"
    and "\<forall>s. fails_with cfg (env j) s TransientError"
    and "sint (attempt t) + int j < sint (maxAttempts t)"
    and "submitDelayedResult (env j) = Some e"
  shows "case run cfg env 0 t of
     (t', ev, x) \<Rightarrow>
       x = Returned \<and> callbacks ev = []
       \<and> error_logs ev = [(''error submitting task: %s'', [ArgError e])]
       \<and> submissions ev = Suc j"
proof -
  from assms(3) have "sint (attempt t) + int j \<le> sint (maxAttempts t)" by simp
  with assms(1) obtain t1 ev1 where
    r: "run cfg env 0 t = (case run cfg env j t1 of (t', ev', x) \<Rightarrow> (t', ev1 @ ev', x))"
    and p: "callbacks ev1 = []" "error_logs ev1 = []" "submissions ev1 = j"
      "sint (attempt t1) = sint (attempt t) + int j" "maxAttempts t1 = maxAttempts t"
    by (rule run_last_attempt)
  obtain t2 ev2 x2 where inv: "Invoke cfg (env j) t1 = (t2, ev2, x2)"
    by (cases "Invoke cfg (env j) t1") auto
  from assms(2) have fw: "fails_with cfg (env j) t1 TransientError" by blast
  from p(4,5) assms(3) have less: "word_sless (attempt t1) (maxAttempts t1)"
    by (simp add: word_sless_alt)
  from Invoke_failure [OF inv fw] less assms(4)
  have f: "x2 = Returned" "callbacks ev2 = []"
    "error_logs ev2 = [(''error submitting task: %s'', [ArgError e])]"
    by simp_all
  from run_over [of cfg env j t1 t2 ev2 x2] inv f(1)
  have "run cfg env j t1 = (t2, ev2, x2)" by simp
  with r have "run cfg env 0 t = (t2, ev1 @ ev2, x2)" by simp
  then show ?thesis
    using f p Invoke_submissions [OF inv] by simp
qed

theorem scheduling_failure_orphans_task_witness:
  "case run example_config
          (env_of_list [notified 11] (not_submitted (Some (PlainError ''executor stopped''))))
          0 (example_task 3) of
     (t', ev, x) \<Rightarrow>
       x = Returned \<and> callbacks ev = []
       \<and> error_logs ev =
           [(''error submitting task: %s'', [ArgError (PlainError ''executor stopped'')])]
       \<and> submissions ev = 2"
proof -
  let ?env = "env_of_list [notified 11] (not_submitted (Some (PlainError ''executor stopped'')))"
  have h1: "\<forall>i<1. (\<forall>s. fails_with example_config (?env i) s TransientError)
                \<and> submitDelayedResult (?env i) = None"
    by (simp add: example_defs eval_defs)
  have h2: "\<forall>s. fails_with example_config (?env 1) s TransientError"
    by (simp add: example_defs eval_defs)
  have h3: "sint (attempt (example_task 3)) + int 1 < sint (maxAttempts (example_task 3))"
    by (simp add: example_defs)
  have h4: "submitDelayedResult (?env 1) = Some (PlainError ''executor stopped'')"
    by (simp add: example_defs)
  from scheduling_failure_orphans_task [OF h1 h2 h3 h4]
  show ?thesis
    by (simp add: numeral_2_eq_2)
qed

text \<open>
  Claim C8. \<open>Invoke\<close> of the query task sends exactly one query, built from the task and
  the configuration, asks for no resubmission, waits for no commit, leaves the task as it
  is (it has no attempt counter), and invokes the callback exactly once, with what the
  query call returned: nil, or its error.
\<close>

theorem querytask_Invoke_once:
  "case querytask_Invoke cfg queryResult t of
     (t', ev) \<Rightarrow>
       submissions ev = 1 \<and> callbacks ev = [queryResult] \<and> resubmissions ev = 0
       \<and> commit_waits ev = 0 \<and> t' = t
       \<and> hd ev = QueryWithOpts (q_channelClient t)
            \<lparr> ChaincodeID = CfgChaincodeID cfg, Fcn = Func (q_args t), ReqArgs = Args (q_args t) \<rparr>
            \<lparr> TxFilter = (q_verbose t, q_printer t), OptTimeout = Timeout cfg \<rparr>"
  by (simp add: querytask_Invoke_def Let_def split: option.split)

text \<open>
  Claim C9. A call of \<open>Invoke\<close> changes no field of the task other than the attempt
  counter, the last error and the transaction id. The attempt counter is either unchanged
  or incremented by one, the latter only when the attempt fails transiently below the
  maximum of attempts and the resubmission is requested.
\<close>

theorem Invoke_frame_condition:
  "case Invoke cfg w t of
     (t', ev, x) \<Rightarrow>
       id' t' = id' t \<and> ccID t' = ccID t \<and> args t' = args t
       \<and> maxAttempts t' = maxAttempts t \<and> resubmitDelay t' = resubmitDelay t
       \<and> callback t' = callback t \<and> verbose t' = verbose t \<and> printer t' = printer t
       \<and> executor t' = executor t \<and> channelClient t' = channelClient t
       \<and> t' = t\<lparr> attempt := attempt t', lastErr := lastErr t', txID := txID t' \<rparr>
       \<and> (attempt t' = attempt t
          \<or> attempt t' = attempt t + 1 \<and> fails_with cfg w t TransientError
            \<and> word_sless (attempt t) (maxAttempts t) \<and> resubmissions ev = 1)"
proof (cases "Invoke cfg w t")
  case (fields t' ev x)
  note fr = Invoke_frame [OF fields]
  have "id' t' = id' t \<and> ccID t' = ccID t \<and> args t' = args t
       \<and> maxAttempts t' = maxAttempts t \<and> resubmitDelay t' = resubmitDelay t
       \<and> callback t' = callback t \<and> verbose t' = verbose t \<and> printer t' = printer t
       \<and> executor t' = executor t \<and> channelClient t' = channelClient t"
    by (subst fr, simp)+
  moreover have "attempt t' = attempt t
          \<or> attempt t' = attempt t + 1 \<and> fails_with cfg w t TransientError
            \<and> word_sless (attempt t) (maxAttempts t) \<and> resubmissions ev = 1"
  proof -
    consider (ok) "attempt_error cfg w t = None" | (fail) code where "fails_with cfg w t code"
      using attempt_outcomes [of cfg w t] by auto
    then show ?thesis
    proof cases
      case ok
      with Invoke_success [OF fields] show ?thesis by simp
    next
      case fail
      from Invoke_failure [OF fields fail] fail show ?thesis
        by (auto split: if_splits)
    qed
  qed
  ultimately show ?thesis using fields fr by simp
qed

text \<open>
  Claim C10. Every non-nil error that \<open>doInvoke\<close> returns is an \<open>invokeerror.Error\<close>
  carrying one of the three codes, so the type assertion of \<open>Invoke\<close> succeeds on it:
  neither a call of \<open>Invoke\<close> nor a run ends in a panic.
\<close>

theorem doInvoke_error_is_invokeerror:
  "(case attempt_error cfg w t of
      None \<Rightarrow> True
    | Some err \<Rightarrow>
        (\<exists>code. assert_invokeerror_Error err = Some (err, code)
           \<and> code \<in> {TransientError, PersistentError, TimeoutOnCommit}))
   \<and> snd (snd (Invoke cfg w t)) \<noteq> Panicked
   \<and> snd (snd (run cfg env k t)) \<noteq> Panicked"
proof (intro conjI)
  obtain r t1 ev1 where d: "doInvoke cfg w t = (r, t1, ev1)"
    by (cases "doInvoke cfg w t") auto
  show "case attempt_error cfg w t of
      None \<Rightarrow> True
    | Some err \<Rightarrow>
        (\<exists>code. assert_invokeerror_Error err = Some (err, code)
           \<and> code \<in> {TransientError, PersistentError, TimeoutOnCommit})"
  proof (cases r)
    case None
    with d show ?thesis by (simp add: attempt_error_def)
  next
    case (Some err)
    with d doInvoke_error_cases [of cfg w t err t1 ev1]
    obtain code format as cause where "err = InvokeError code format as cause" by auto
    with d Some show ?thesis by (cases code) (simp_all add: attempt_error_def)
  qed
  obtain t' ev x where inv: "Invoke cfg w t = (t', ev, x)"
    by (cases "Invoke cfg w t") auto
  consider (ok) "attempt_error cfg w t = None" | (fail) code where "fails_with cfg w t code"
    using attempt_outcomes [of cfg w t] by auto
  then have "x \<noteq> Panicked"
  proof cases
    case ok
    with Invoke_success [OF inv] show ?thesis by simp
  next
    case fail
    from Invoke_failure [OF inv fail] show ?thesis
      by (auto split: if_splits option.splits)
  qed
  with inv show "snd (snd (Invoke cfg w t)) \<noteq> Panicked" by simp
  obtain t2 ev2 x2 where r: "run cfg env k t = (t2, ev2, x2)"
    by (cases "run cfg env k t") auto
  from run_ends [OF r] r show "snd (snd (run cfg env k t)) \<noteq> Panicked" by simp
qed

theorem doInvoke_error_is_invokeerror_witness:
  "attempt_error example_config timed_out (example_task 3) \<noteq> None
   \<and> (\<exists>code. assert_invokeerror_Error
         (the (attempt_error example_config timed_out (example_task 3)))
       = Some (the (attempt_error example_config timed_out (example_task 3)), code))
   \<and> snd (snd (Invoke example_config timed_out (example_task 3))) \<noteq> Panicked"
proof -
  have h: "attempt_error example_config timed_out (example_task 3) \<noteq> None"
    by (simp add: example_defs eval_defs)
  from h doInvoke_error_is_invokeerror
           [where cfg = example_config and w = timed_out and t = "example_task 3"
              and env = "env_of_list [] timed_out" and k = 0]
  show ?thesis
    by (auto split: option.splits)
qed

end
